theory Spec2Isabelle
  imports Main "HOL-Library.AList"
begin

section \<open>The realtime module of the backend (websocket/index.js)\<close>

text \<open>
  The module keeps two JavaScript \<open>Map\<close>s, \<open>deviceConnections\<close> and \<open>adminConnections\<close>,
  and reacts to the events of a WebSocket server. A JavaScript \<open>Map\<close> iterates in insertion
  order, \<open>set\<close> on a present key replaces the value in place and \<open>delete\<close> removes the key:
  an association list with \<open>AList.update\<close> and \<open>AList.delete\<close>.

  The handlers of the frames are \<open>async\<close> functions. Each is given twice: first as one
  step on the state, which is the handler when nothing else is handled between its
  \<open>await\<close>s (the store answers at once), and then, in the section on the split handlers,
  in the pieces between its \<open>await\<close>s, with other events in between. What is stated about
  every sequence of events is stated on the split handlers; the one-step form gives the
  effect of a single handler and the example states.
  A socket object is identified by a number, \<open>new Date()\<close> is the argument \<open>now\<close> in
  milliseconds (the two readings of the clock inside one handler are taken as one), and
  \<open>ws.send\<close> returns normally: the frame is appended to the history \<open>sent\<close> of the calls
  made on the sockets (on an open socket \<open>send\<close> does not throw: a failed write closes the
  socket later, and the \<open>close\<close> listener is then called).
  No function of the module closes or terminates a socket: \<open>readyState\<close> changes with
  the events of the server only.
  The history \<open>broadcasts\<close> records the calls of \<open>broadcastToAdmins\<close> with their two
  arguments; the code has no such variable, and nothing in the model reads it.
  The keep-alive timer, which pings every open socket, touches neither map and is left
  out.
\<close>

subsection \<open>Data\<close>

type_synonym socket = nat

datatype ready_state = CONNECTING | OPEN | CLOSING | CLOSED

text \<open>The columns of a row of the table \<open>devices\<close> that the module reads or writes.\<close>

record device_row =
  name :: string
  tenant_id :: string
  status :: string
  last_seen :: int

record stats =
  cpu :: int
  memory :: int
  storage :: int
  temperature :: int

record device_log =
  device_id :: string
  event_type :: string
  message :: string

record playback_log =
  pl_device_id :: string
  content_id :: string
  campaign_id :: string
  duration :: int
  start_time :: int
  end_time :: int

record device_stats_row =
  cpu_usage :: int
  memory_usage :: int
  storage_used :: int
  st_temperature :: int
  updated_at :: int

record device_screenshot =
  sc_device_id :: string
  screenshot_data :: string
  created_at :: int

text \<open>The backing store: the tables the module touches. \<open>devices\<close> and \<open>device_stats\<close>
  are keyed by the device id.\<close>

record store =
  devices :: "string \<rightharpoonup> device_row"
  device_logs :: "device_log list"
  playback_logs :: "playback_log list"
  device_stats :: "string \<rightharpoonup> device_stats_row"
  device_screenshots :: "device_screenshot list"

text \<open>The entries of the two maps: \<open>{ws, deviceId, lastSeen, device}\<close> for a device and
  \<open>{ws, userId, lastSeen}\<close> for an administrator. An administrator's entry has no other
  property; in particular it carries no tenant.\<close>

record connection =
  ws :: socket
  lastSeen :: int

record device_connection = connection +
  deviceId :: string
  device :: device_row

record admin_connection = connection +
  userId :: string

text \<open>The frames the server writes. REGISTERED carries the \<open>deviceId\<close> for a device and the
  \<open>userId\<close> for an administrator.\<close>

datatype frame =
    CONNECTED
  | REGISTERED_device string
  | REGISTERED_admin string
  | ERROR string
  | HEARTBEAT_ACK
  | DEVICE_ONLINE string string
  | DEVICE_OFFLINE string string
  | PLAYBACK_UPDATE string string string int
  | DEVICE_STATUS_UPDATE string string stats string
  | SCREENSHOT_READY string
  | CONTENT_UPDATE string
  | BLOCK_DEVICE string
  | UNBLOCK_DEVICE

text \<open>The parsed frames the server reads, by their \<open>type\<close>. The \<open>token\<close> of the two
  registration frames is read and never used. An ADMIN_REGISTER frame is given with the
  \<open>tenantId\<close> it may carry beside its \<open>userId\<close>: the handler reads \<open>userId\<close> and \<open>token\<close> and
  nothing else. \<open>stats\<close> and \<open>timestamp\<close> may be missing; a \<open>timestamp\<close> is a number here.\<close>

datatype data =
    DEVICE_REGISTER string
  | ADMIN_REGISTER string "string option"
  | HEARTBEAT string
  | PLAYBACK_LOG string string string int int int
  | DEVICE_STATUS string string "stats option"
  | SCREENSHOT_RESULT string string "int option"
  | OTHER string

record state =
  deviceConnections :: "(string \<times> device_connection) list"
  adminConnections :: "(string \<times> admin_connection) list"
  readyState :: "socket \<Rightarrow> ready_state"
  sent :: "(socket \<times> frame) list"
  broadcasts :: "(frame \<times> string) list"
  db :: store

subsection \<open>Sockets and store\<close>

definition ws_send :: "socket \<Rightarrow> frame \<Rightarrow> state \<Rightarrow> state" where
  "ws_send w f s = s\<lparr>sent := sent s @ [(w, f)]\<rparr>"

text \<open>\<open>supabase.from('devices').update(...).eq('id', deviceId)\<close>: the row of that id, if
  there is one, is changed.\<close>

definition update_device :: "string \<Rightarrow> (device_row \<Rightarrow> device_row) \<Rightarrow> state \<Rightarrow> state" where
  "update_device i f s =
     (case devices (db s) i of
        None \<Rightarrow> s
      | Some r \<Rightarrow> s\<lparr>db := (db s)\<lparr>devices := (devices (db s))(i \<mapsto> f r)\<rparr>\<rparr>)"

definition insert_device_log :: "device_log \<Rightarrow> state \<Rightarrow> state" where
  "insert_device_log l s = s\<lparr>db := (db s)\<lparr>device_logs := device_logs (db s) @ [l]\<rparr>\<rparr>"

definition insert_playback_log :: "playback_log \<Rightarrow> state \<Rightarrow> state" where
  "insert_playback_log l s = s\<lparr>db := (db s)\<lparr>playback_logs := playback_logs (db s) @ [l]\<rparr>\<rparr>"

definition upsert_device_stats :: "string \<Rightarrow> device_stats_row \<Rightarrow> state \<Rightarrow> state" where
  "upsert_device_stats i r s = s\<lparr>db := (db s)\<lparr>device_stats := (device_stats (db s))(i \<mapsto> r)\<rparr>\<rparr>"

definition insert_device_screenshot :: "device_screenshot \<Rightarrow> state \<Rightarrow> state" where
  "insert_device_screenshot r s =
     s\<lparr>db := (db s)\<lparr>device_screenshots := device_screenshots (db s) @ [r]\<rparr>\<rparr>"

subsection \<open>broadcastToAdmins and broadcastToDevice\<close>

text \<open>The loop over \<open>adminConnections.values()\<close>. The argument \<open>tenantId\<close> is not read by
  the code: it goes into the history of the calls and nowhere else.\<close>

fun broadcast_loop :: "frame \<Rightarrow> admin_connection list \<Rightarrow> state \<Rightarrow> state" where
  "broadcast_loop msg [] s = s"
| "broadcast_loop msg (connection # rest) s =
     broadcast_loop msg rest
       (if readyState s (ws connection) = OPEN then ws_send (ws connection) msg s else s)"

definition broadcastToAdmins :: "frame \<Rightarrow> string \<Rightarrow> state \<Rightarrow> state" where
  "broadcastToAdmins msg tenantId s =
     broadcast_loop msg (map snd (adminConnections s))
       (s\<lparr>broadcasts := broadcasts s @ [(msg, tenantId)]\<rparr>)"

definition broadcastToDevice :: "string \<Rightarrow> frame \<Rightarrow> state \<Rightarrow> bool \<times> state" where
  "broadcastToDevice i msg s =
     (case map_of (deviceConnections s) i of
        None \<Rightarrow> (False, s)
      | Some connection \<Rightarrow>
          if readyState s (ws connection) = OPEN
          then (True, ws_send (ws connection) msg s)
          else (False, s))"

subsection \<open>The handlers of the inbound frames\<close>

text \<open>\<open>handleDeviceRegister\<close> awaits the store three times: the select of the device (before
  the entry is set), the update of the status and the insert of the log entry (before
  REGISTERED and the broadcast). This is the handler with the three answers at once;
  \<open>resume\<close> below has its pieces.\<close>

definition handleDeviceRegister :: "socket \<Rightarrow> string \<Rightarrow> int \<Rightarrow> state \<Rightarrow> state" where
  "handleDeviceRegister w i now s =
     (case devices (db s) i of
        None \<Rightarrow> ws_send w (ERROR ''Device not found'') s
      | Some dev \<Rightarrow>
          let s1 = s\<lparr>deviceConnections :=
                      AList.update i \<lparr>ws = w, lastSeen = now, deviceId = i, device = dev\<rparr>
                        (deviceConnections s)\<rparr>;
              s2 = update_device i (\<lambda>r. r\<lparr>status := ''online'', last_seen := now\<rparr>) s1;
              s3 = insert_device_log
                     \<lparr>device_id = i, event_type = ''online'',
                      message = ''Device connected via WebSocket''\<rparr> s2;
              s4 = ws_send w (REGISTERED_device i) s3
          in broadcastToAdmins (DEVICE_ONLINE i (name dev)) (tenant_id dev) s4)"

definition handleAdminRegister :: "socket \<Rightarrow> string \<Rightarrow> int \<Rightarrow> state \<Rightarrow> state" where
  "handleAdminRegister w u now s =
     ws_send w (REGISTERED_admin u)
       (s\<lparr>adminConnections :=
            AList.update u \<lparr>ws = w, lastSeen = now, userId = u\<rparr> (adminConnections s)\<rparr>)"

definition handleHeartbeat :: "socket \<Rightarrow> string \<Rightarrow> int \<Rightarrow> state \<Rightarrow> state" where
  "handleHeartbeat w i now s =
     (case map_of (deviceConnections s) i of
        None \<Rightarrow> s
      | Some connection \<Rightarrow>
          let s1 = s\<lparr>deviceConnections :=
                      AList.update i (connection\<lparr>lastSeen := now\<rparr>) (deviceConnections s)\<rparr>;
              s2 = update_device i (\<lambda>r. r\<lparr>last_seen := now\<rparr>) s1
          in ws_send w HEARTBEAT_ACK s2)"

definition handlePlaybackLog ::
  "string \<Rightarrow> string \<Rightarrow> string \<Rightarrow> int \<Rightarrow> int \<Rightarrow> int \<Rightarrow> state \<Rightarrow> state" where
  "handlePlaybackLog i contentId campaignId dur startTime endTime s =
     (let s1 = insert_playback_log
                 \<lparr>pl_device_id = i, content_id = contentId, campaign_id = campaignId,
                  duration = dur, start_time = startTime, end_time = endTime\<rparr> s
      in case devices (db s1) i of
           None \<Rightarrow> s1
         | Some dev \<Rightarrow>
             broadcastToAdmins (PLAYBACK_UPDATE i contentId campaignId dur) (tenant_id dev) s1)"

text \<open>\<open>stats.cpu\<close> on a frame without \<open>stats\<close> throws before anything is written; the
  handler's \<open>catch\<close> logs the error.\<close>

definition handleDeviceStatus :: "string \<Rightarrow> string \<Rightarrow> stats option \<Rightarrow> int \<Rightarrow> state \<Rightarrow> state" where
  "handleDeviceStatus i st sto now s =
     (case sto of
        None \<Rightarrow> s
      | Some sts \<Rightarrow>
          let s1 = upsert_device_stats i
                     \<lparr>cpu_usage = cpu sts, memory_usage = memory sts,
                      storage_used = storage sts, st_temperature = temperature sts,
                      updated_at = now\<rparr> s
          in case devices (db s1) i of
               None \<Rightarrow> s1
             | Some dev \<Rightarrow>
                 broadcastToAdmins (DEVICE_STATUS_UPDATE i st sts (name dev)) (tenant_id dev) s1)"

text \<open>\<open>timestamp || new Date().toISOString()\<close>: the clock stands in for a \<open>timestamp\<close> that is
  missing or falsy (the number 0).\<close>

definition created :: "int option \<Rightarrow> int \<Rightarrow> int" where
  "created ts now = (case ts of None \<Rightarrow> now | Some t \<Rightarrow> if t = 0 then now else t)"

definition handleScreenshotResult :: "string \<Rightarrow> string \<Rightarrow> int option \<Rightarrow> int \<Rightarrow> state \<Rightarrow> state" where
  "handleScreenshotResult i shot ts now s =
     (let s1 = insert_device_screenshot
                 \<lparr>sc_device_id = i, screenshot_data = shot, created_at = created ts now\<rparr> s
      in case devices (db s1) i of
           None \<Rightarrow> s1
         | Some dev \<Rightarrow> broadcastToAdmins (SCREENSHOT_READY i) (tenant_id dev) s1)"

text \<open>The \<open>message\<close> listener: \<open>JSON.parse\<close> throws on a frame that is not JSON (\<open>None\<close>
  here) and the \<open>catch\<close> logs it; a frame of another \<open>type\<close> is logged.\<close>

fun on_message :: "socket \<Rightarrow> data option \<Rightarrow> int \<Rightarrow> state \<Rightarrow> state" where
  "on_message w None now s = s"
| "on_message w (Some (DEVICE_REGISTER i)) now s = handleDeviceRegister w i now s"
| "on_message w (Some (ADMIN_REGISTER u t)) now s = handleAdminRegister w u now s"
| "on_message w (Some (HEARTBEAT i)) now s = handleHeartbeat w i now s"
| "on_message w (Some (PLAYBACK_LOG i c g d t1 t2)) now s = handlePlaybackLog i c g d t1 t2 s"
| "on_message w (Some (DEVICE_STATUS i st sto)) now s = handleDeviceStatus i st sto now s"
| "on_message w (Some (SCREENSHOT_RESULT i shot ts)) now s = handleScreenshotResult i shot ts now s"
| "on_message w (Some (OTHER t)) now s = s"

subsection \<open>The close listener\<close>

text \<open>The \<open>close\<close> listener walks each map and deletes the first entry whose \<open>ws\<close> is the
  closed socket, then breaks.\<close>

definition remove_socket :: "socket \<Rightarrow> (string \<times> ('a connection_scheme)) list
    \<Rightarrow> (string \<times> ('a connection_scheme)) list" where
  "remove_socket w al =
     (case find (\<lambda>(key, connection). ws connection = w) al of
        None \<Rightarrow> al
      | Some (key, connection) \<Rightarrow> AList.delete key al)"

definition on_close :: "socket \<Rightarrow> state \<Rightarrow> state" where
  "on_close w s =
     s\<lparr>deviceConnections := remove_socket w (deviceConnections s),
       adminConnections := remove_socket w (adminConnections s)\<rparr>"

text \<open>\<open>const timeout = 5 * 60 * 1000\<close>.\<close>

definition timeout :: int where
  "timeout = 5 * 60 * 1000"

subsection \<open>The events of the server\<close>

text \<open>What the WebSocket server delivers to the module: a new connection (the socket is
  open and gets the frame CONNECTED), a frame on a socket at a time of the clock (here
  with its handler run to its end), the close of a socket (the socket is CLOSED when the
  listener is called). The cleanup timer is in the section on the split handlers.\<close>

datatype event =
    Connection socket
  | Message socket "data option" int
  | Close socket

fun step :: "event \<Rightarrow> state \<Rightarrow> state" where
  "step (Connection w) s = ws_send w CONNECTED (s\<lparr>readyState := (readyState s)(w := OPEN)\<rparr>)"
| "step (Message w d now) s = on_message w d now s"
| "step (Close w) s = on_close w (s\<lparr>readyState := (readyState s)(w := CLOSED)\<rparr>)"

fun run :: "event list \<Rightarrow> state \<Rightarrow> state" where
  "run [] s = s"
| "run (e # es) s = run es (step e s)"

text \<open>The module at start: both maps empty, no socket open, nothing written.\<close>

definition boot :: "store \<Rightarrow> state" where
  "boot st = \<lparr>deviceConnections = [], adminConnections = [],
              readyState = (\<lambda>w. CLOSED), sent = [], broadcasts = [], db = st\<rparr>"

text \<open>The frames written since an earlier state.\<close>

definition written :: "state \<Rightarrow> state \<Rightarrow> (socket \<times> frame) list" where
  "written s s' = drop (length (sent s)) (sent s')"



subsection \<open>Example data\<close>

definition lobby :: device_row where
  "lobby = \<lparr>name = ''Lobby'', tenant_id = ''A'', status = ''offline'', last_seen = 0\<rparr>"

definition store1 :: store where
  "store1 = \<lparr>devices = [''d1'' \<mapsto> lobby], device_logs = [], playback_logs = [],
             device_stats = Map.empty, device_screenshots = []\<rparr>"

text \<open>One observer \<open>u1\<close> on socket 1, then the device \<open>d1\<close> on socket 2.\<close>

definition observed :: state where
  "observed = run [Connection 1, Message 1 (Some (ADMIN_REGISTER ''u1'' None)) 5,
                   Connection 2, Message 2 (Some (DEVICE_REGISTER ''d1'')) 10] (boot store1)"

text \<open>The same with the device registering a second time, on socket 3.\<close>

definition superseded :: state where
  "superseded = run [Connection 3, Message 3 (Some (DEVICE_REGISTER ''d1'')) 20] observed"

text \<open>A socket is CLOSING from the start of the closing handshake until its \<open>close\<close> event:
  the listener has not run yet and the entries are still in the maps.\<close>

definition closing :: "socket \<Rightarrow> state \<Rightarrow> state" where
  "closing w s = s\<lparr>readyState := (readyState s)(w := CLOSING)\<rparr>"


text \<open>An administrator registers on socket 1 with a frame that names the tenant \<open>B\<close>.\<close>

definition observer_of_B :: state where
  "observer_of_B =
     run [Connection 1, Message 1 (Some (ADMIN_REGISTER ''u1'' (Some ''B''))) 5] (boot store1)"

section \<open>The simplified server (server.js)\<close>

text \<open>
  server.js keeps its own \<open>deviceConnections\<close>, from the device id to the socket itself,
  registers without looking the device up, and broadcasts to every client of the
  WebSocket server (\<open>wss.clients\<close>). Its writes to the store are left out: no statement
  below reads them.
\<close>

datatype srv_frame = STATUS_UPDATE string string | COMMAND frame

record srv_state =
  srv_deviceConnections :: "(string \<times> socket) list"
  srv_clients :: "socket list"
  srv_readyState :: "socket \<Rightarrow> ready_state"
  srv_sent :: "(socket \<times> srv_frame) list"

fun srv_broadcast_loop :: "srv_frame \<Rightarrow> socket list \<Rightarrow> srv_state \<Rightarrow> srv_state" where
  "srv_broadcast_loop msg [] s = s"
| "srv_broadcast_loop msg (client # rest) s =
     srv_broadcast_loop msg rest
       (if srv_readyState s client = OPEN
        then s\<lparr>srv_sent := srv_sent s @ [(client, msg)]\<rparr> else s)"

definition broadcastToAdmin :: "srv_frame \<Rightarrow> srv_state \<Rightarrow> srv_state" where
  "broadcastToAdmin msg s = srv_broadcast_loop msg (srv_clients s) s"

definition sendToDevice :: "string \<Rightarrow> frame \<Rightarrow> srv_state \<Rightarrow> bool \<times> srv_state" where
  "sendToDevice i msg s =
     (case map_of (srv_deviceConnections s) i of
        None \<Rightarrow> (False, s)
      | Some connection \<Rightarrow>
          if srv_readyState s connection = OPEN
          then (True, s\<lparr>srv_sent := srv_sent s @ [(connection, COMMAND msg)]\<rparr>)
          else (False, s))"

fun srv_on_message :: "socket \<Rightarrow> data option \<Rightarrow> srv_state \<Rightarrow> srv_state" where
  "srv_on_message w (Some (DEVICE_REGISTER i)) s =
     broadcastToAdmin (STATUS_UPDATE i ''online'')
       (s\<lparr>srv_deviceConnections := AList.update i w (srv_deviceConnections s)\<rparr>)"
| "srv_on_message w d s = s"

text \<open>The \<open>close\<close> listener. When it is called the library has set the socket CLOSED and
  taken it out of \<open>wss.clients\<close> (its own \<open>close\<close> listener was added first): \<open>srv_closed\<close> is the
  state the listener starts from.\<close>

definition srv_closed :: "socket \<Rightarrow> srv_state \<Rightarrow> srv_state" where
  "srv_closed w s = s\<lparr>srv_clients := removeAll w (srv_clients s),
                  srv_readyState := (srv_readyState s)(w := CLOSED)\<rparr>"

definition srv_on_close :: "socket \<Rightarrow> srv_state \<Rightarrow> srv_state" where
  "srv_on_close w s =
     (case find (\<lambda>(i, connection). connection = w) (srv_deviceConnections (srv_closed w s)) of
        None \<Rightarrow> srv_closed w s
      | Some (i, connection) \<Rightarrow>
          broadcastToAdmin (STATUS_UPDATE i ''offline'')
            ((srv_closed w s)\<lparr>srv_deviceConnections :=
                             AList.delete i (srv_deviceConnections (srv_closed w s))\<rparr>))"

text \<open>The device \<open>d1\<close> registered on socket 1 and then again on socket 2.\<close>

definition srv_superseded :: srv_state where
  "srv_superseded =
     srv_on_message 2 (Some (DEVICE_REGISTER ''d1''))
       (srv_on_message 1 (Some (DEVICE_REGISTER ''d1''))
          \<lparr>srv_deviceConnections = [], srv_clients = [1, 2],
           srv_readyState = (\<lambda>w. OPEN), srv_sent = []\<rparr>)"

section \<open>The handlers split at their awaits\<close>

text \<open>
  The \<open>message\<close> listener and the callback of the cleanup timer are \<open>async\<close> functions and
  nothing waits for them: a handler runs until its next \<open>await\<close> of the store and is
  resumed when the store answers, and in between the frames that arrive start their own
  handlers. A value of the type \<open>suspended\<close> is a handler stopped at an \<open>await\<close>, with the
  variables it still needs; the store request it waits for takes effect when it is
  resumed.

  The cleanup callback is suspended inside its loop over \<open>deviceConnections\<close>. The
  iterator of a \<open>Map\<close> is a position in the order of insertion: it has passed the first
  \<open>q\<close> entries of the list and will visit what stands after them when it goes on, entries
  added in the meantime included. When an entry it has passed is deleted, the position
  moves down with the list (\<open>reposition\<close>).
\<close>

datatype suspended =
    Reg_select socket string
  | Reg_update socket string device_row int
  | Reg_insert socket string device_row
  | Hb_update socket string int
  | Pl_insert string string string int int int
  | Pl_select string string string int
  | St_upsert string string stats int
  | St_select string string stats
  | Sc_insert string string int
  | Sc_select string
  | Cl_update int nat string device_connection
  | Cl_insert int nat string device_connection

text \<open>A frame arrives: the handler runs up to its first \<open>await\<close>.\<close>

fun arrive :: "socket \<Rightarrow> data option \<Rightarrow> int \<Rightarrow> state \<Rightarrow> state \<times> suspended option" where
  "arrive w None now s = (s, None)"
| "arrive w (Some (DEVICE_REGISTER i)) now s = (s, Some (Reg_select w i))"
| "arrive w (Some (ADMIN_REGISTER u t)) now s = (handleAdminRegister w u now s, None)"
| "arrive w (Some (HEARTBEAT i)) now s =
     (case map_of (deviceConnections s) i of
        None \<Rightarrow> (s, None)
      | Some connection \<Rightarrow>
          (s\<lparr>deviceConnections :=
               AList.update i (connection\<lparr>lastSeen := now\<rparr>) (deviceConnections s)\<rparr>,
           Some (Hb_update w i now)))"
| "arrive w (Some (PLAYBACK_LOG i c g d t1 t2)) now s = (s, Some (Pl_insert i c g d t1 t2))"
| "arrive w (Some (DEVICE_STATUS i st sto)) now s =
     (case sto of None \<Rightarrow> (s, None) | Some sts \<Rightarrow> (s, Some (St_upsert i st sts now)))"
| "arrive w (Some (SCREENSHOT_RESULT i shot ts)) now s =
     (s, Some (Sc_insert i shot (created ts now)))"
| "arrive w (Some (OTHER t)) now s = (s, None)"

text \<open>The loop of the cleanup callback from the position \<open>q\<close>, over the entries that stand
  there: it goes on to the first entry whose \<open>lastSeen\<close> is more than the timeout before
  the time \<open>now\<close> of the firing, and stops there at the \<open>await\<close> of the status update.
  An entry's \<open>device\<close> is the row that passed the test \<open>!device\<close> at its registration, an
  object, so the guard \<open>if (connection.device)\<close> around the broadcast holds.\<close>

fun cleanup_scan ::
  "int \<Rightarrow> nat \<Rightarrow> (string \<times> device_connection) list \<Rightarrow> suspended option" where
  "cleanup_scan now q [] = None"
| "cleanup_scan now q ((i, connection) # rest) =
     (if now - lastSeen connection > timeout
      then Some (Cl_update now (Suc q) i connection)
      else cleanup_scan now (Suc q) rest)"

definition reposition ::
  "(string \<times> device_connection) list \<Rightarrow> (string \<times> device_connection) list \<Rightarrow> nat \<Rightarrow> nat" where
  "reposition old new q = length (filter (\<lambda>p. fst p \<in> set (map fst new)) (take q old))"

fun moved ::
  "(string \<times> device_connection) list \<Rightarrow> (string \<times> device_connection) list
     \<Rightarrow> suspended option \<Rightarrow> suspended option" where
  "moved old new (Some (Cl_update now q i c)) = Some (Cl_update now (reposition old new q) i c)"
| "moved old new (Some (Cl_insert now q i c)) = Some (Cl_insert now (reposition old new q) i c)"
| "moved old new t = t"

text \<open>The store answers: the request takes effect and the handler runs on to its next
  \<open>await\<close> or to its end. The cleanup callback deletes by the key, whatever entry the key
  has by then, broadcasts with the connection it took from the map before the two
  \<open>await\<close>s, and goes on with its loop.\<close>

fun resume :: "suspended \<Rightarrow> int \<Rightarrow> state \<Rightarrow> state \<times> suspended option" where
  "resume (Reg_select w i) now s =
     (case devices (db s) i of
        None \<Rightarrow> (ws_send w (ERROR ''Device not found'') s, None)
      | Some dev \<Rightarrow>
          (s\<lparr>deviceConnections :=
               AList.update i \<lparr>ws = w, lastSeen = now, deviceId = i, device = dev\<rparr>
                 (deviceConnections s)\<rparr>,
           Some (Reg_update w i dev now)))"
| "resume (Reg_update w i dev t) now s =
     (update_device i (\<lambda>r. r\<lparr>status := ''online'', last_seen := t\<rparr>) s,
      Some (Reg_insert w i dev))"
| "resume (Reg_insert w i dev) now s =
     (broadcastToAdmins (DEVICE_ONLINE i (name dev)) (tenant_id dev)
        (ws_send w (REGISTERED_device i)
           (insert_device_log
              \<lparr>device_id = i, event_type = ''online'',
               message = ''Device connected via WebSocket''\<rparr> s)),
      None)"
| "resume (Hb_update w i t) now s =
     (ws_send w HEARTBEAT_ACK (update_device i (\<lambda>r. r\<lparr>last_seen := t\<rparr>) s), None)"
| "resume (Pl_insert i c g d t1 t2) now s =
     (insert_playback_log
        \<lparr>pl_device_id = i, content_id = c, campaign_id = g,
         duration = d, start_time = t1, end_time = t2\<rparr> s,
      Some (Pl_select i c g d))"
| "resume (Pl_select i c g d) now s =
     (case devices (db s) i of
        None \<Rightarrow> (s, None)
      | Some dev \<Rightarrow> (broadcastToAdmins (PLAYBACK_UPDATE i c g d) (tenant_id dev) s, None))"
| "resume (St_upsert i st sts t) now s =
     (upsert_device_stats i
        \<lparr>cpu_usage = cpu sts, memory_usage = memory sts,
         storage_used = storage sts, st_temperature = temperature sts,
         updated_at = t\<rparr> s,
      Some (St_select i st sts))"
| "resume (St_select i st sts) now s =
     (case devices (db s) i of
        None \<Rightarrow> (s, None)
      | Some dev \<Rightarrow>
          (broadcastToAdmins (DEVICE_STATUS_UPDATE i st sts (name dev)) (tenant_id dev) s, None))"
| "resume (Sc_insert i shot t) now s =
     (insert_device_screenshot
        \<lparr>sc_device_id = i, screenshot_data = shot, created_at = t\<rparr> s,
      Some (Sc_select i))"
| "resume (Sc_select i) now s =
     (case devices (db s) i of
        None \<Rightarrow> (s, None)
      | Some dev \<Rightarrow> (broadcastToAdmins (SCREENSHOT_READY i) (tenant_id dev) s, None))"
| "resume (Cl_update fired q i connection) now s =
     (update_device i (\<lambda>r. r\<lparr>status := ''offline''\<rparr>) s, Some (Cl_insert fired q i connection))"
| "resume (Cl_insert fired q i connection) now s =
     (let s1 = insert_device_log
                 \<lparr>device_id = i, event_type = ''offline'',
                  message = ''Device disconnected (timeout)''\<rparr> s;
          s2 = s1\<lparr>deviceConnections := AList.delete i (deviceConnections s1)\<rparr>;
          s3 = broadcastToAdmins (DEVICE_OFFLINE i (name (device connection)))
                 (tenant_id (device connection)) s2;
          q' = reposition (deviceConnections s1) (deviceConnections s2) q
      in (s3, cleanup_scan fired q' (drop q' (deviceConnections s3))))"

text \<open>The server between two events: the state and the suspended handlers, one place in
  the list for each frame that has arrived and each firing of the timer. An event is a
  frame arriving, the cleanup timer firing at a time of the clock, the store answering
  the handler at the place \<open>k\<close>, or a connection or a close, whose listeners do not wait
  for anything.\<close>

datatype async_event =
    Arrives socket "data option" int
  | Fires int
  | Answers nat int
  | Connects socket
  | Closes socket

fun async_step ::
  "async_event \<Rightarrow> state \<times> suspended option list \<Rightarrow> state \<times> suspended option list" where
  "async_step (Arrives w d now) (s, ts) =
     (case arrive w d now s of (s', t) \<Rightarrow> (s', ts @ [t]))"
| "async_step (Fires now) (s, ts) = (s, ts @ [cleanup_scan now 0 (deviceConnections s)])"
| "async_step (Answers k now) (s, ts) =
     (if k < length ts
      then (case ts ! k of
              None \<Rightarrow> (s, ts)
            | Some t \<Rightarrow>
                (case resume t now s of
                   (s', t') \<Rightarrow>
                     (s', (map (moved (deviceConnections s) (deviceConnections s')) ts)[k := t'])))
      else (s, ts))"
| "async_step (Connects w) (s, ts) = (step (Connection w) s, ts)"
| "async_step (Closes w) (s, ts) =
     (step (Close w) s,
      map (moved (deviceConnections s) (deviceConnections (step (Close w) s))) ts)"

fun async_run ::
  "async_event list \<Rightarrow> state \<times> suspended option list \<Rightarrow> state \<times> suspended option list" where
  "async_run [] c = c"
| "async_run (e # es) c = async_run es (async_step e c)"

text \<open>A handler of a frame resumed at once at each of its \<open>await\<close>s; none has more than
  three.\<close>

fun settle :: "nat \<Rightarrow> int \<Rightarrow> state \<times> suspended option \<Rightarrow> state" where
  "settle n now (s, None) = s"
| "settle 0 now (s, Some t) = s"
| "settle (Suc n) now (s, Some t) = settle n now (resume t now s)"

subsection \<open>What a run registers, broadcasts and writes\<close>

text \<open>The entry that an event puts into the registry for the device id \<open>i\<close>: the event is
  the answer to the select of a registration for \<open>i\<close>, and the store has the device.\<close>

fun puts :: "string \<Rightarrow> async_event \<Rightarrow> state \<times> suspended option list \<Rightarrow> device_connection option" where
  "puts i (Answers k now) (s, ts) =
     (if k < length ts
      then (case ts ! k of
              Some (Reg_select w j) \<Rightarrow>
                (if j = i
                 then (case devices (db s) i of
                         None \<Rightarrow> None
                       | Some dev \<Rightarrow> Some \<lparr>ws = w, lastSeen = now, deviceId = i, device = dev\<rparr>)
                 else None)
            | _ \<Rightarrow> None)
      else None)"
| "puts i e c = None"

text \<open>The entry of the latest put for \<open>i\<close> in the run of \<open>es\<close> from \<open>c\<close>.\<close>

fun latest_put ::
  "string \<Rightarrow> async_event list \<Rightarrow> state \<times> suspended option list \<Rightarrow> device_connection option" where
  "latest_put i [] c = None"
| "latest_put i (e # es) c =
     (case latest_put i es (async_step e c) of
        Some x \<Rightarrow> Some x
      | None \<Rightarrow> puts i e c)"

text \<open>A HEARTBEAT for \<open>i\<close> is the one frame that changes an entry in place.\<close>

fun heartbeat_arrives :: "string \<Rightarrow> async_event \<Rightarrow> bool" where
  "heartbeat_arrives i (Arrives w (Some (HEARTBEAT j)) now) = (j = i)"
| "heartbeat_arrives i e = False"

text \<open>The sockets of the DEVICE_REGISTER frames for \<open>i\<close>, in the order the frames arrive.\<close>

fun registration_frames :: "string \<Rightarrow> async_event list \<Rightarrow> socket list" where
  "registration_frames i [] = []"
| "registration_frames i (Arrives w (Some (DEVICE_REGISTER j)) now # es) =
     (if j = i then w # registration_frames i es else registration_frames i es)"
| "registration_frames i (e # es) = registration_frames i es"

text \<open>The broadcasts made and the frames written by the events \<open>es\<close> from \<open>c\<close>, event by
  event.\<close>

fun emitted ::
  "async_event list \<Rightarrow> state \<times> suspended option list \<Rightarrow> (frame \<times> string) list" where
  "emitted [] c = []"
| "emitted (e # es) c =
     drop (length (broadcasts (fst c))) (broadcasts (fst (async_step e c)))
       @ emitted es (async_step e c)"

fun wrote ::
  "async_event list \<Rightarrow> state \<times> suspended option list \<Rightarrow> (socket \<times> frame) list" where
  "wrote [] c = []"
| "wrote (e # es) c = written (fst c) (fst (async_step e c)) @ wrote es (async_step e c)"

subsection \<open>Example runs\<close>

text \<open>An observer connects on socket 1 and the device \<open>d1\<close> on socket 2; the device sends
  DEVICE_REGISTER and, without waiting for REGISTERED, a PLAYBACK_LOG on the same
  socket. The store answers the requests in the order they were made.\<close>

definition eager_device :: "async_event list" where
  "eager_device =
     [Connects 1, Connects 2,
      Arrives 1 (Some (ADMIN_REGISTER ''u1'' None)) 5,
      Arrives 2 (Some (DEVICE_REGISTER ''d1'')) 10,
      Arrives 2 (Some (PLAYBACK_LOG ''d1'' ''c1'' ''g1'' 30 0 30)) 11,
      Answers 1 12, Answers 2 13, Answers 1 14, Answers 2 15, Answers 1 16]"

text \<open>An observer on socket 1; the registration of \<open>d1\<close> on socket 2 has come to its last
  \<open>await\<close>, the insert of the log entry, at the place 1.\<close>

definition registering :: "state \<times> suspended option list" where
  "registering =
     async_run [Connects 1, Connects 2,
                Arrives 1 (Some (ADMIN_REGISTER ''u1'' None)) 5,
                Arrives 2 (Some (DEVICE_REGISTER ''d1'')) 10,
                Answers 1 11, Answers 1 12] (boot store1, [])"

text \<open>The device \<open>d1\<close> sends its PLAYBACK_LOG after the registration has finished.\<close>

definition patient_device :: "async_event list" where
  "patient_device =
     [Arrives 2 (Some (PLAYBACK_LOG ''d1'' ''c1'' ''g1'' 30 0 30)) 20, Answers 2 21, Answers 2 22]"

text \<open>The device \<open>d1\<close> sends DEVICE_REGISTER on socket 2 and then on socket 3; the store
  answers the select of the second frame first.\<close>

definition out_of_order :: "async_event list" where
  "out_of_order =
     [Connects 2, Connects 3,
      Arrives 2 (Some (DEVICE_REGISTER ''d1'')) 10,
      Arrives 3 (Some (DEVICE_REGISTER ''d1'')) 11,
      Answers 1 12, Answers 0 13]"

text \<open>The device \<open>d1\<close>, registered on socket 2 at the time 11 and silent since, with an
  observer on socket 1. The timer fires at 400000, finds \<open>d1\<close> timed out and awaits the
  store; a HEARTBEAT of \<open>d1\<close> arrives at 400001; the store answers the status update.\<close>

definition heartbeat_in_between :: "async_event list" where
  "heartbeat_in_between =
     [Connects 1, Arrives 1 (Some (ADMIN_REGISTER ''u1'' None)) 5,
      Connects 2, Arrives 2 (Some (DEVICE_REGISTER ''d1'')) 10,
      Answers 1 11, Answers 1 12, Answers 1 13,
      Fires 400000,
      Arrives 2 (Some (HEARTBEAT ''d1'')) 400001,
      Answers 2 400002]"

text \<open>The same, with the device coming back on socket 3 instead: its DEVICE_REGISTER
  arrives at 400001 and the store answers its select before the status update.\<close>

definition registration_in_between :: "async_event list" where
  "registration_in_between =
     [Connects 1, Arrives 1 (Some (ADMIN_REGISTER ''u1'' None)) 5,
      Connects 2, Arrives 2 (Some (DEVICE_REGISTER ''d1'')) 10,
      Answers 1 11, Answers 1 12, Answers 1 13,
      Fires 400000,
      Connects 3, Arrives 3 (Some (DEVICE_REGISTER ''d1'')) 400001,
      Answers 3 400002, Answers 2 400003]"

section \<open>Facts about the primitives, the loops and the handlers\<close>

named_theorems keeps \<open>what a primitive leaves unchanged\<close>

lemma ws_send_keeps [keeps]:
  "sent (ws_send w f s) = sent s @ [(w, f)]"
  "deviceConnections (ws_send w f s) = deviceConnections s"
  "adminConnections (ws_send w f s) = adminConnections s"
  "readyState (ws_send w f s) = readyState s"
  "broadcasts (ws_send w f s) = broadcasts s"
  "db (ws_send w f s) = db s"
  by (simp_all add: ws_send_def)

lemma update_device_keeps [keeps]:
  "deviceConnections (update_device i f s) = deviceConnections s"
  "adminConnections (update_device i f s) = adminConnections s"
  "readyState (update_device i f s) = readyState s"
  "broadcasts (update_device i f s) = broadcasts s"
  "sent (update_device i f s) = sent s"
  "device_logs (db (update_device i f s)) = device_logs (db s)"
  by (simp_all add: update_device_def split: option.splits)

lemma devices_update_device:
  "devices (db (update_device i f s)) =
     (case devices (db s) i of
        None \<Rightarrow> devices (db s)
      | Some r \<Rightarrow> (devices (db s))(i \<mapsto> f r))"
  by (simp add: update_device_def split: option.splits)

lemma insert_device_log_keeps [keeps]:
  "deviceConnections (insert_device_log l s) = deviceConnections s"
  "adminConnections (insert_device_log l s) = adminConnections s"
  "readyState (insert_device_log l s) = readyState s"
  "broadcasts (insert_device_log l s) = broadcasts s"
  "sent (insert_device_log l s) = sent s"
  "devices (db (insert_device_log l s)) = devices (db s)"
  by (simp_all add: insert_device_log_def)

lemma insert_playback_log_keeps [keeps]:
  "deviceConnections (insert_playback_log l s) = deviceConnections s"
  "adminConnections (insert_playback_log l s) = adminConnections s"
  "readyState (insert_playback_log l s) = readyState s"
  "broadcasts (insert_playback_log l s) = broadcasts s"
  "sent (insert_playback_log l s) = sent s"
  "devices (db (insert_playback_log l s)) = devices (db s)"
  by (simp_all add: insert_playback_log_def)

lemma upsert_device_stats_keeps [keeps]:
  "deviceConnections (upsert_device_stats i r s) = deviceConnections s"
  "adminConnections (upsert_device_stats i r s) = adminConnections s"
  "readyState (upsert_device_stats i r s) = readyState s"
  "broadcasts (upsert_device_stats i r s) = broadcasts s"
  "sent (upsert_device_stats i r s) = sent s"
  "devices (db (upsert_device_stats i r s)) = devices (db s)"
  by (simp_all add: upsert_device_stats_def)

lemma insert_device_screenshot_keeps [keeps]:
  "deviceConnections (insert_device_screenshot r s) = deviceConnections s"
  "adminConnections (insert_device_screenshot r s) = adminConnections s"
  "readyState (insert_device_screenshot r s) = readyState s"
  "broadcasts (insert_device_screenshot r s) = broadcasts s"
  "sent (insert_device_screenshot r s) = sent s"
  "devices (db (insert_device_screenshot r s)) = devices (db s)"
  by (simp_all add: insert_device_screenshot_def)

subsection \<open>The broadcast loops\<close>

lemma broadcast_loop_keeps:
  "deviceConnections (broadcast_loop msg cs s) = deviceConnections s"
  "adminConnections (broadcast_loop msg cs s) = adminConnections s"
  "readyState (broadcast_loop msg cs s) = readyState s"
  "broadcasts (broadcast_loop msg cs s) = broadcasts s"
  "db (broadcast_loop msg cs s) = db s"
  by (induction cs arbitrary: s) (simp_all add: ws_send_def)

lemma sent_broadcast_loop:
  "sent (broadcast_loop msg cs s) =
     sent s @ map (\<lambda>c. (ws c, msg)) (filter (\<lambda>c. readyState s (ws c) = OPEN) cs)"
  by (induction cs arbitrary: s) (simp_all add: ws_send_def)

lemma broadcastToAdmins_keeps:
  "deviceConnections (broadcastToAdmins msg t s) = deviceConnections s"
  "adminConnections (broadcastToAdmins msg t s) = adminConnections s"
  "readyState (broadcastToAdmins msg t s) = readyState s"
  "db (broadcastToAdmins msg t s) = db s"
  by (simp_all add: broadcastToAdmins_def broadcast_loop_keeps)

lemma broadcasts_broadcastToAdmins:
  "broadcasts (broadcastToAdmins msg t s) = broadcasts s @ [(msg, t)]"
  by (simp add: broadcastToAdmins_def broadcast_loop_keeps)

lemma sent_broadcastToAdmins:
  "sent (broadcastToAdmins msg t s) =
     sent s @ map (\<lambda>c. (ws c, msg))
                (filter (\<lambda>c. readyState s (ws c) = OPEN) (map snd (adminConnections s)))"
  by (simp add: broadcastToAdmins_def sent_broadcast_loop)


lemma srv_broadcast_loop_keeps:
  "srv_deviceConnections (srv_broadcast_loop msg cs t) = srv_deviceConnections t"
  "srv_clients (srv_broadcast_loop msg cs t) = srv_clients t"
  "srv_readyState (srv_broadcast_loop msg cs t) = srv_readyState t"
  by (induction cs arbitrary: t) simp_all

lemma broadcastToAdmin_keeps:
  "srv_deviceConnections (broadcastToAdmin msg t) = srv_deviceConnections t"
  "srv_clients (broadcastToAdmin msg t) = srv_clients t"
  "srv_readyState (broadcastToAdmin msg t) = srv_readyState t"
  by (simp_all add: broadcastToAdmin_def srv_broadcast_loop_keeps)

subsection \<open>The handlers\<close>

lemmas handler_defs = handleDeviceRegister_def handleAdminRegister_def handleHeartbeat_def
  handlePlaybackLog_def handleDeviceStatus_def handleScreenshotResult_def

lemma deviceConnections_register:
  "deviceConnections (handleDeviceRegister w i now s) =
     (case devices (db s) i of
        None \<Rightarrow> deviceConnections s
      | Some dev \<Rightarrow> AList.update i \<lparr>ws = w, lastSeen = now, deviceId = i, device = dev\<rparr>
                     (deviceConnections s))"
  by (simp add: handleDeviceRegister_def Let_def keeps broadcastToAdmins_keeps
           split: option.splits)

lemma deviceConnections_heartbeat:
  "deviceConnections (handleHeartbeat w i now s) =
     (case map_of (deviceConnections s) i of
        None \<Rightarrow> deviceConnections s
      | Some c \<Rightarrow> AList.update i (c\<lparr>lastSeen := now\<rparr>) (deviceConnections s))"
  by (simp add: handleHeartbeat_def Let_def keeps split: option.splits)

lemma deviceConnections_telemetry:
  "deviceConnections (handlePlaybackLog i a b d t1 t2 s) = deviceConnections s"
  "deviceConnections (handleDeviceStatus i st sto now s) = deviceConnections s"
  "deviceConnections (handleScreenshotResult i shot ts now s) = deviceConnections s"
  "deviceConnections (handleAdminRegister w u now s) = deviceConnections s"
  by (simp_all add: handler_defs Let_def keeps broadcastToAdmins_keeps split: option.splits)

lemma readyState_on_message: "readyState (on_message w d now s) = readyState s"
  by (cases "(w, d, now, s)" rule: on_message.cases)
     (simp_all add: handler_defs Let_def keeps broadcastToAdmins_keeps split: option.splits)

subsection \<open>The example states\<close>

lemma observed_eval:
  "deviceConnections observed =
     [(''d1'', \<lparr>ws = 2, lastSeen = 10, deviceId = ''d1'', device = lobby\<rparr>)]"
  "adminConnections observed = [(''u1'', \<lparr>ws = 1, lastSeen = 5, userId = ''u1''\<rparr>)]"
  "readyState observed = (\<lambda>w. CLOSED)(1 := OPEN, 2 := OPEN)"
  by (simp_all add: observed_def boot_def store1_def handleDeviceRegister_def
        handleAdminRegister_def ws_send_def update_device_def insert_device_log_def
        broadcastToAdmins_keeps)

lemma observed_db:
  "devices (db observed) ''d1'' = Some (lobby\<lparr>status := ''online'', last_seen := 10\<rparr>)"
  by (simp add: observed_def boot_def store1_def lobby_def handleDeviceRegister_def
        handleAdminRegister_def ws_send_def update_device_def insert_device_log_def
        broadcastToAdmins_keeps)

lemma superseded_eval:
  "deviceConnections superseded =
     [(''d1'', \<lparr>ws = 3, lastSeen = 20, deviceId = ''d1'',
               device = lobby\<lparr>status := ''online'', last_seen := 10\<rparr>\<rparr>)]"
  "adminConnections superseded = [(''u1'', \<lparr>ws = 1, lastSeen = 5, userId = ''u1''\<rparr>)]"
  "readyState superseded = (\<lambda>w. CLOSED)(1 := OPEN, 2 := OPEN, 3 := OPEN)"
  by (simp_all add: superseded_def observed_def boot_def store1_def handleDeviceRegister_def
        handleAdminRegister_def ws_send_def update_device_def insert_device_log_def
        broadcastToAdmins_keeps)


lemma observer_of_B_eval:
  "adminConnections observer_of_B = [(''u1'', \<lparr>ws = 1, lastSeen = 5, userId = ''u1''\<rparr>)]"
  "readyState observer_of_B = (\<lambda>w. CLOSED)(1 := OPEN)"
  by (simp_all add: observer_of_B_def boot_def handleAdminRegister_def ws_send_def)

lemma srv_superseded_eval:
  "srv_deviceConnections srv_superseded = [(''d1'', 2)]"
  "srv_clients srv_superseded = [1, 2]"
  "srv_readyState srv_superseded = (\<lambda>w. OPEN)"
  by (simp_all add: srv_superseded_def broadcastToAdmin_keeps)

lemma registering_eval:
  "snd registering = [None, Some (Reg_insert 2 ''d1'' lobby)]"
  "adminConnections (fst registering) = [(''u1'', \<lparr>ws = 1, lastSeen = 5, userId = ''u1''\<rparr>)]"
  "readyState (fst registering) = (\<lambda>w. CLOSED)(1 := OPEN, 2 := OPEN)"
  "broadcasts (fst registering) = []"
  "devices (db (fst registering)) ''d1'' = Some (lobby\<lparr>status := ''online'', last_seen := 11\<rparr>)"
  by (simp_all add: registering_def boot_def store1_def handleAdminRegister_def ws_send_def
        update_device_def)

subsection \<open>Association lists with each key once\<close>

lemma filter_key_update:
  "distinct (map fst al) \<Longrightarrow> filter (\<lambda>e. fst e = k) (AList.update k v al) = [(k, v)]"
  by (induction al) (auto simp: filter_empty_conv image_iff)

lemma length_filter_key:
  "distinct (map fst al) \<Longrightarrow> length (filter (\<lambda>p. fst p = k) al) \<le> 1"
  by (induction al) (auto simp: filter_empty_conv image_iff)

subsection \<open>Removing the entry of a closed socket\<close>

lemma remove_socket_keeps_other:
  assumes "distinct (map fst al)" and "map_of al i = Some c" and "ws c \<noteq> w"
  shows "map_of (remove_socket w al) i = Some c"
proof (cases "find (\<lambda>(key, connection). ws connection = w) al")
  case None
  then show ?thesis using assms by (simp add: remove_socket_def)
next
  case (Some kc)
  obtain k c' where kc: "kc = (k, c')" by (cases kc)
  from Some kc have "(k, c') \<in> set al" and "ws c' = w"
    by (auto simp: find_Some_iff in_set_conv_nth)
  then have "map_of al k = Some c'"
    using assms(1) by simp
  with assms(2,3) \<open>ws c' = w\<close> have "k \<noteq> i"
    by auto
  with Some kc assms show ?thesis
    by (simp add: remove_socket_def)
qed

lemma map_of_remove_socket_Some:
  "map_of (remove_socket w al) i = Some c \<Longrightarrow> map_of al i = Some c"
  by (auto simp: remove_socket_def AList.delete_conv' split: option.splits if_splits)

lemma distinct_remove_socket:
  "distinct (map fst al) \<Longrightarrow> distinct (map fst (remove_socket w al))"
  by (auto simp: remove_socket_def AList.distinct_delete split: option.splits)


lemma srv_closed_keeps [simp]:
  "srv_deviceConnections (srv_closed w t) = srv_deviceConnections t"
  "srv_clients (srv_closed w t) = removeAll w (srv_clients t)"
  by (simp_all add: srv_closed_def)

lemma srv_on_close_keeps_other:
  assumes "distinct (map fst (srv_deviceConnections t))"
    and "map_of (srv_deviceConnections t) i = Some w'" and "w' \<noteq> w"
  shows "map_of (srv_deviceConnections (srv_on_close w t)) i = Some w'"
proof (cases "find (\<lambda>(i, connection). connection = w) (srv_deviceConnections t)")
  case None
  then show ?thesis using assms by (simp add: srv_on_close_def)
next
  case (Some kc)
  obtain k c' where kc: "kc = (k, c')" by (cases kc)
  from Some kc have "(k, c') \<in> set (srv_deviceConnections t)" and "c' = w"
    by (auto simp: find_Some_iff in_set_conv_nth)
  then have "map_of (srv_deviceConnections t) k = Some c'"
    using assms(1) by simp
  with assms(2,3) \<open>c' = w\<close> have "k \<noteq> i"
    by auto
  with Some kc assms show ?thesis
    by (simp add: srv_on_close_def broadcastToAdmin_keeps)
qed


subsection \<open>The split handlers\<close>

text \<open>Resumed at once at every \<open>await\<close>, the split handler of a frame is the handler in
  one step.\<close>

lemma settle_is_on_message: "settle 3 now (arrive w d now s) = on_message w d now s"
  by (cases "(w, d, now, s)" rule: on_message.cases)
     (simp_all add: numeral_3_eq_3 handler_defs Let_def split: option.splits)

lemma deviceConnections_arrive:
  "deviceConnections (fst (arrive w d now s)) =
     (case d of
        Some (HEARTBEAT i) \<Rightarrow>
          (case map_of (deviceConnections s) i of
             None \<Rightarrow> deviceConnections s
           | Some c \<Rightarrow> AList.update i (c\<lparr>lastSeen := now\<rparr>) (deviceConnections s))
      | _ \<Rightarrow> deviceConnections s)"
  by (cases "(w, d, now, s)" rule: arrive.cases)
     (simp_all add: deviceConnections_telemetry split: option.splits)

lemma deviceConnections_resume:
  "deviceConnections (fst (resume t now s)) =
     (case t of
        Reg_select w i \<Rightarrow>
          (case devices (db s) i of
             None \<Rightarrow> deviceConnections s
           | Some dev \<Rightarrow> AList.update i \<lparr>ws = w, lastSeen = now, deviceId = i, device = dev\<rparr>
                          (deviceConnections s))
      | Cl_insert fired q i c \<Rightarrow> AList.delete i (deviceConnections s)
      | _ \<Rightarrow> deviceConnections s)"
  by (cases t)
     (simp_all add: keeps broadcastToAdmins_keeps Let_def split: option.splits)

lemma distinct_async_step:
  "distinct (map fst (deviceConnections (fst c))) \<Longrightarrow>
   distinct (map fst (deviceConnections (fst (async_step e c))))"
proof (cases c)
  case (Pair s ts)
  assume d: "distinct (map fst (deviceConnections (fst c)))"
  show ?thesis
  proof (cases e)
    case (Arrives w m now)
    have "distinct (map fst (deviceConnections (fst (arrive w m now s))))"
      using d Pair
      by (simp add: deviceConnections_arrive AList.distinct_update
               split: option.splits data.splits)
    with Pair Arrives show ?thesis by (auto split: prod.splits)
  next
    case (Answers k now)
    show ?thesis
    proof (cases "k < length ts")
      case False
      with Pair Answers d show ?thesis by simp
    next
      case True
      show ?thesis
      proof (cases "ts ! k")
        case None
        with Pair Answers True d show ?thesis by simp
      next
        case (Some t)
        have "distinct (map fst (deviceConnections (fst (resume t now s))))"
          using d Pair
          by (simp add: deviceConnections_resume AList.distinct_update AList.distinct_delete
                   split: option.splits suspended.splits)
        with Pair Answers True Some show ?thesis by (auto split: prod.splits)
      qed
    qed
  next
    case (Fires now)
    with Pair d show ?thesis by simp
  next
    case (Connects w)
    with Pair d show ?thesis by (simp add: keeps)
  next
    case (Closes w)
    with Pair d show ?thesis by (simp add: on_close_def distinct_remove_socket)
  qed
qed

lemma distinct_async_run:
  "distinct (map fst (deviceConnections (fst c))) \<Longrightarrow>
   distinct (map fst (deviceConnections (fst (async_run es c))))"
  by (induction es arbitrary: c) (simp_all add: distinct_async_step)

text \<open>An entry found after one event was put by that event, or was there before, with
  another \<open>lastSeen\<close> only if the event is a HEARTBEAT for its id.\<close>

lemma async_step_entry:
  assumes "map_of (deviceConnections (fst (async_step e c))) i = Some x"
  shows "case puts i e c of
           Some c' \<Rightarrow> x = c'
         | None \<Rightarrow> (\<exists>c0. map_of (deviceConnections (fst c)) i = Some c0
                      \<and> x = c0\<lparr>lastSeen := lastSeen x\<rparr>
                      \<and> (\<not> heartbeat_arrives i e \<longrightarrow> x = c0))"
proof (cases c)
  case (Pair s ts)
  show ?thesis
  proof (cases e)
    case (Arrives w m now)
    from assms Pair Arrives
    have x: "map_of (deviceConnections (fst (arrive w m now s))) i = Some x"
      by (simp split: prod.splits)
    show ?thesis
    proof (cases m)
      case None
      with x Pair Arrives show ?thesis by simp
    next
      case (Some f)
      show ?thesis
      proof (cases f)
        case (HEARTBEAT j)
        with x Pair Arrives Some show ?thesis
          by (auto simp: AList.update_conv' split: option.splits if_splits)
      qed (use x Pair Arrives Some in
            \<open>simp_all add: deviceConnections_telemetry split: option.splits\<close>)
    qed
  next
    case (Fires now)
    with assms Pair show ?thesis by simp
  next
    case (Connects w)
    with assms Pair show ?thesis by (simp add: keeps)
  next
    case (Closes w)
    with assms Pair show ?thesis
      by (auto simp: on_close_def dest: map_of_remove_socket_Some)
  next
    case (Answers k now)
    show ?thesis
    proof (cases "k < length ts")
      case False
      with assms Pair Answers show ?thesis by simp
    next
      case True
      show ?thesis
      proof (cases "ts ! k")
        case None
        with assms Pair Answers True show ?thesis by simp
      next
        case (Some t)
        from assms Pair Answers True Some
        have x: "map_of (deviceConnections (fst (resume t now s))) i = Some x"
          by (simp split: prod.splits)
        show ?thesis
        proof (cases t)
          case (Reg_select w j)
          with x Pair Answers True Some show ?thesis
            by (auto simp: AList.update_conv' keeps split: option.splits if_splits)
        next
          case (Cl_insert fired q j cj)
          have "deviceConnections (fst (resume t now s)) = AList.delete j (deviceConnections s)"
            unfolding Cl_insert by (simp add: deviceConnections_resume del: resume.simps)
          with x have "map_of (deviceConnections s) i = Some x"
            by (auto simp: AList.delete_conv' split: if_splits)
          with Pair Answers True Some Cl_insert show ?thesis
            by simp
        qed (use x Pair Answers True Some in
              \<open>simp_all add: keeps broadcastToAdmins_keeps split: option.splits\<close>)
      qed
    qed
  qed
qed

lemma async_run_entry:
  "map_of (deviceConnections (fst (async_run es c))) i = Some x \<Longrightarrow>
     (case latest_put i es c of
        Some c' \<Rightarrow> x = c'\<lparr>lastSeen := lastSeen x\<rparr>
                   \<and> (list_all (\<lambda>e. \<not> heartbeat_arrives i e) es \<longrightarrow> x = c')
      | None \<Rightarrow> (\<exists>c0. map_of (deviceConnections (fst c)) i = Some c0
                      \<and> x = c0\<lparr>lastSeen := lastSeen x\<rparr>
                      \<and> (list_all (\<lambda>e. \<not> heartbeat_arrives i e) es \<longrightarrow> x = c0)))"
proof (induction es arbitrary: c)
  case Nil
  then show ?case by simp
next
  case (Cons e es)
  from Cons.prems
  have later: "map_of (deviceConnections (fst (async_run es (async_step e c)))) i = Some x"
    by simp
  note IH = Cons.IH[OF later]
  show ?case
  proof (cases "latest_put i es (async_step e c)")
    case (Some c')
    with IH show ?thesis by simp
  next
    case None
    with IH obtain c0 where c0: "map_of (deviceConnections (fst (async_step e c))) i = Some c0"
      and eq: "x = c0\<lparr>lastSeen := lastSeen x\<rparr>"
      and nohb: "list_all (\<lambda>e. \<not> heartbeat_arrives i e) es \<longrightarrow> x = c0"
      by auto
    note first = async_step_entry[OF c0]
    show ?thesis
    proof (cases "puts i e c")
      case (Some c')
      with first have "c0 = c'" by simp
      with None Some eq nohb show ?thesis by simp
    next
      case unregistered: None
      with first obtain c1 where c1: "map_of (deviceConnections (fst c)) i = Some c1"
        and eq1: "c0 = c1\<lparr>lastSeen := lastSeen c0\<rparr>"
        and nohb1: "\<not> heartbeat_arrives i e \<longrightarrow> c0 = c1"
        by auto
      from eq eq1 have "x = c1\<lparr>lastSeen := lastSeen x\<rparr>"
        by (metis connection.update_convs(2) connection.surjective connection.simps)
      with None unregistered c1 nohb nohb1 show ?thesis by auto
    qed
  qed
qed

subsection \<open>The histories only grow\<close>

lemma grows_resume:
  "\<exists>l. broadcasts (fst (resume t now s)) = broadcasts s @ l"
  "\<exists>l. sent (fst (resume t now s)) = sent s @ l"
  by (cases t; simp add: keeps broadcasts_broadcastToAdmins sent_broadcastToAdmins Let_def
        broadcastToAdmins_keeps split: option.splits)+

lemma grows_arrive:
  "\<exists>l. broadcasts (fst (arrive w d now s)) = broadcasts s @ l"
  "\<exists>l. sent (fst (arrive w d now s)) = sent s @ l"
  by (cases "(w, d, now, s)" rule: arrive.cases;
      simp add: keeps handleAdminRegister_def split: option.splits)+

lemma grows_async_step:
  "\<exists>l. broadcasts (fst (async_step e c)) = broadcasts (fst c) @ l"
  "\<exists>l. sent (fst (async_step e c)) = sent (fst c) @ l"
proof -
  obtain s ts where c: "c = (s, ts)" by (cases c)
  show "\<exists>l. broadcasts (fst (async_step e c)) = broadcasts (fst c) @ l"
  proof (cases e)
    case (Arrives w d now)
    with c grows_arrive(1)[of w d now s] show ?thesis by (auto split: prod.splits)
  next
    case (Answers k now)
    show ?thesis
    proof (cases "k < length ts \<and> ts ! k \<noteq> None")
      case False
      with c Answers show ?thesis by (auto split: option.splits)
    next
      case True
      then obtain t where "ts ! k = Some t" by auto
      with c Answers True grows_resume(1)[of t now s] show ?thesis
        by (auto split: prod.splits)
    qed
  qed (use c in \<open>simp_all add: keeps on_close_def\<close>)
  show "\<exists>l. sent (fst (async_step e c)) = sent (fst c) @ l"
  proof (cases e)
    case (Arrives w d now)
    with c grows_arrive(2)[of w d now s] show ?thesis by (auto split: prod.splits)
  next
    case (Answers k now)
    show ?thesis
    proof (cases "k < length ts \<and> ts ! k \<noteq> None")
      case False
      with c Answers show ?thesis by (auto split: option.splits)
    next
      case True
      then obtain t where "ts ! k = Some t" by auto
      with c Answers True grows_resume(2)[of t now s] show ?thesis
        by (auto split: prod.splits)
    qed
  qed (use c in \<open>simp_all add: keeps on_close_def\<close>)
qed

lemma broadcasts_async_run:
  "broadcasts (fst (async_run es c)) = broadcasts (fst c) @ emitted es c"
proof (induction es arbitrary: c)
  case Nil
  then show ?case by simp
next
  case (Cons e es)
  obtain l where "broadcasts (fst (async_step e c)) = broadcasts (fst c) @ l"
    using grows_async_step(1) by blast
  with Cons.IH[of "async_step e c"] show ?case by simp
qed

lemma sent_async_run:
  "sent (fst (async_run es c)) = sent (fst c) @ wrote es c"
proof (induction es arbitrary: c)
  case Nil
  then show ?case by simp
next
  case (Cons e es)
  obtain l where "sent (fst (async_step e c)) = sent (fst c) @ l"
    using grows_async_step(2) by blast
  with Cons.IH[of "async_step e c"] show ?case by (simp add: written_def)
qed

section \<open>Who receives a broadcast\<close>

text \<open>
  C1. The code does not do what the claim says. \<open>broadcastToAdmins\<close> is given the tenant
  of the event by each of its callers and does not read it, and the registration of an
  observer keeps nothing of a tenant: an administrator who registered with a frame that
  names the tenant \<open>B\<close> is written an event of a device of the tenant \<open>A\<close>.
\<close>

theorem tenant_A_event_reaches_observer_of_B:
  "adminConnections observer_of_B = [(''u1'', \<lparr>ws = 1, lastSeen = 5, userId = ''u1''\<rparr>)]
   \<and> written observer_of_B
        (broadcastToAdmins (PLAYBACK_UPDATE ''d1'' ''c1'' ''g1'' 30) ''A'' observer_of_B)
      = [(1, PLAYBACK_UPDATE ''d1'' ''c1'' ''g1'' 30)]"
  by (simp add: written_def sent_broadcastToAdmins observer_of_B_eval)

section \<open>Dispatching a command\<close>

text \<open>
  C2, as amended. \<open>broadcastToDevice\<close> (and \<open>sendToDevice\<close> of server.js) returns true if
  and only if the registry has an entry for the device id and the socket of that entry
  is OPEN; for an id with no entry it returns false and changes nothing.
\<close>

theorem dispatch_delivered_iff_open:
  "fst (broadcastToDevice i msg s) =
     (\<exists>c. map_of (deviceConnections s) i = Some c \<and> readyState s (ws c) = OPEN)
   \<and> (i \<notin> fst ` set (deviceConnections s) \<longrightarrow> broadcastToDevice i msg s = (False, s))
   \<and> fst (sendToDevice j msg t) =
     (\<exists>c. map_of (srv_deviceConnections t) j = Some c \<and> srv_readyState t c = OPEN)
   \<and> (j \<notin> fst ` set (srv_deviceConnections t) \<longrightarrow> sendToDevice j msg t = (False, t))"
  by (auto simp: broadcastToDevice_def sendToDevice_def map_of_eq_None_iff[symmetric]
           split: option.splits)

theorem dispatch_delivered_iff_open_witness:
  "''d9'' \<notin> fst ` set (deviceConnections observed)
   \<and> broadcastToDevice ''d9'' UNBLOCK_DEVICE observed = (False, observed)
   \<and> ''d9'' \<notin> fst ` set (srv_deviceConnections srv_superseded)
   \<and> sendToDevice ''d9'' UNBLOCK_DEVICE srv_superseded = (False, srv_superseded)"
  using dispatch_delivered_iff_open
    [where i = "''d9''" and s = observed and msg = UNBLOCK_DEVICE
       and j = "''d9''" and t = srv_superseded]
  by (simp add: observed_eval srv_superseded_eval)

text \<open>
  The claim as stated fails: \<open>d1\<close> has an entry in the registry, its socket is CLOSING,
  and the command is not delivered.
\<close>

theorem dispatch_to_closing_device:
  "map_of (deviceConnections (closing 2 observed)) ''d1''
     = Some \<lparr>ws = 2, lastSeen = 10, deviceId = ''d1'', device = lobby\<rparr>
   \<and> broadcastToDevice ''d1'' (BLOCK_DEVICE ''blocked'') (closing 2 observed)
     = (False, closing 2 observed)"
  by (simp add: broadcastToDevice_def closing_def observed_eval)

section \<open>The cleanup timer\<close>

text \<open>
  C3. The code does not do what the claim says of a connection within the threshold.
  The callback of the timer tests \<open>lastSeen\<close>, then awaits the store twice, then deletes
  by the device id. The device \<open>d1\<close>, found timed out by the firing at 400000, sends a
  HEARTBEAT that arrives at 400001, before the store has answered: its entry has the
  \<open>lastSeen\<close> 400001 when the store answers, and it is deleted all the same, with a
  DEVICE_OFFLINE to the observer. Likewise when \<open>d1\<close> registers again on another socket
  in between: the new entry, with the \<open>lastSeen\<close> 400002, is the one deleted.
\<close>

theorem cleanup_evicts_refreshed_connection:
  "map_of (deviceConnections (fst (async_run heartbeat_in_between (boot store1, [])))) ''d1''
     = Some \<lparr>ws = 2, lastSeen = 400001, deviceId = ''d1'', device = lobby\<rparr>
   \<and> deviceConnections
        (fst (async_run (heartbeat_in_between @ [Answers 2 400003]) (boot store1, []))) = []
   \<and> written (fst (async_run heartbeat_in_between (boot store1, [])))
        (fst (async_run (heartbeat_in_between @ [Answers 2 400003]) (boot store1, [])))
      = [(1, DEVICE_OFFLINE ''d1'' ''Lobby'')]
   \<and> map_of (deviceConnections (fst (async_run registration_in_between (boot store1, []))))
        ''d1''
     = Some \<lparr>ws = 3, lastSeen = 400002, deviceId = ''d1'',
             device = lobby\<lparr>status := ''online'', last_seen := 11\<rparr>\<rparr>
   \<and> deviceConnections
        (fst (async_run (registration_in_between @ [Answers 2 400004]) (boot store1, []))) = []"
  by (simp add: heartbeat_in_between_def registration_in_between_def boot_def store1_def
        lobby_def handleAdminRegister_def ws_send_def update_device_def insert_device_log_def
        broadcastToAdmins_def timeout_def reposition_def written_def)

section \<open>One entry for a device id, the latest\<close>

text \<open>
  C4, as amended. After any sequence of events from the start of the module (frames of
  every kind on any socket, answers of the store in any order, connections, closes,
  firings of the timer; in particular the registrations and closes for one device id,
  observed after any number of events), the registry has at most one entry for a device
  id \<open>i\<close>, and an entry it has for \<open>i\<close> is the one of the latest put for \<open>i\<close>, that is, of
  the registration for \<open>i\<close> whose select of the device the store answered last: the same
  socket, id and device, and also the same \<open>lastSeen\<close> when no HEARTBEAT for \<open>i\<close> is among
  the events.
\<close>

theorem registry_holds_latest_put:
  "length (filter (\<lambda>p. fst p = i) (deviceConnections (fst (async_run es (boot st, []))))) \<le> 1
   \<and> (map_of (deviceConnections (fst (async_run es (boot st, [])))) i = Some c \<longrightarrow>
        (\<exists>c'. latest_put i es (boot st, []) = Some c' \<and> c = c'\<lparr>lastSeen := lastSeen c\<rparr>)
        \<and> (list_all (\<lambda>e. \<not> heartbeat_arrives i e) es \<longrightarrow>
             latest_put i es (boot st, []) = Some c))"
proof (intro conjI impI)
  show "length (filter (\<lambda>p. fst p = i) (deviceConnections (fst (async_run es (boot st, [])))))
          \<le> 1"
    by (rule length_filter_key, rule distinct_async_run) (simp add: boot_def)
next
  assume c: "map_of (deviceConnections (fst (async_run es (boot st, [])))) i = Some c"
  have empty: "map_of (deviceConnections (fst (boot st, []))) i = None"
    by (simp add: boot_def)
  from async_run_entry[OF c] empty
  show "\<exists>c'. latest_put i es (boot st, []) = Some c' \<and> c = c'\<lparr>lastSeen := lastSeen c\<rparr>"
    by (cases "latest_put i es (boot st, [])") auto
  assume "list_all (\<lambda>e. \<not> heartbeat_arrives i e) es"
  with async_run_entry[OF c] empty show "latest_put i es (boot st, []) = Some c"
    by (cases "latest_put i es (boot st, [])") auto
qed

theorem registry_holds_latest_put_witness:
  "map_of (deviceConnections (fst (async_run out_of_order (boot store1, [])))) ''d1''
     = Some \<lparr>ws = 2, lastSeen = 13, deviceId = ''d1'', device = lobby\<rparr>
   \<and> list_all (\<lambda>e. \<not> heartbeat_arrives ''d1'' e) out_of_order
   \<and> latest_put ''d1'' out_of_order (boot store1, [])
     = Some \<lparr>ws = 2, lastSeen = 13, deviceId = ''d1'', device = lobby\<rparr>"
  using registry_holds_latest_put
    [where i = "''d1''" and es = out_of_order and st = store1
       and c = "\<lparr>ws = 2, lastSeen = 13, deviceId = ''d1'', device = lobby\<rparr>"]
  by (simp add: out_of_order_def boot_def store1_def ws_send_def)

text \<open>
  The claim as stated fails: the DEVICE_REGISTER frames for \<open>d1\<close> arrive on socket 2 and
  then on socket 3, the store answers the select of the second frame first, and the
  registry ends with the entry of socket 2, which is not the most recent registration.
\<close>

theorem earlier_registration_wins:
  "registration_frames ''d1'' out_of_order = [2, 3]
   \<and> map_option ws
        (map_of (deviceConnections (fst (async_run out_of_order (boot store1, [])))) ''d1'')
     = Some 2"
  by (simp add: out_of_order_def boot_def store1_def ws_send_def)

section \<open>The close of a superseded socket\<close>

text \<open>
  C5. The \<open>close\<close> listener removes an entry only when the socket stored in it is the
  closed socket itself. So when the registry (a map: each key once) holds for a device
  id an entry made by another socket, as it does once a newer registration has replaced
  the entry of the socket now closing, that entry is still there, unchanged, after the
  close. The same holds for server.js.
\<close>

theorem stale_close_keeps_newer_entry:
  "(distinct (map fst (deviceConnections s)) \<and> map_of (deviceConnections s) i = Some c
      \<and> ws c \<noteq> w
      \<longrightarrow> map_of (deviceConnections (step (Close w) s)) i = Some c)
   \<and> (distinct (map fst (srv_deviceConnections t)) \<and> map_of (srv_deviceConnections t) j = Some v'
       \<and> v' \<noteq> v
      \<longrightarrow> map_of (srv_deviceConnections (srv_on_close v t)) j = Some v')"
  by (simp add: on_close_def remove_socket_keeps_other srv_on_close_keeps_other)

theorem stale_close_keeps_newer_entry_witness:
  "map_of (deviceConnections (step (Close 2) superseded)) ''d1''
     = Some \<lparr>ws = 3, lastSeen = 20, deviceId = ''d1'',
             device = lobby\<lparr>status := ''online'', last_seen := 10\<rparr>\<rparr>
   \<and> map_of (srv_deviceConnections (srv_on_close 1 srv_superseded)) ''d1'' = Some 2"
  using stale_close_keeps_newer_entry
    [where s = superseded and i = "''d1''" and w = 2
       and t = srv_superseded and j = "''d1''" and v' = 2 and v = 1
       and c = "\<lparr>ws = 3, lastSeen = 20, deviceId = ''d1'',
                 device = lobby\<lparr>status := ''online'', last_seen := 10\<rparr>\<rparr>"]
  by (simp add: superseded_eval srv_superseded_eval)

section \<open>A second registration\<close>

text \<open>
  C6, as amended. A successful DEVICE_REGISTER for a device id replaces the entry of
  that id: afterwards the registry (a map: each key once) has exactly one entry for the
  id, the new one. It closes nothing: the state of every socket, the superseded one
  included, is what it was before. The same holds for server.js.
\<close>

theorem reregistration_replaces_and_closes_nothing:
  "(devices (db s) i = Some dev \<and> distinct (map fst (deviceConnections s)) \<longrightarrow>
      filter (\<lambda>e. fst e = i) (deviceConnections (on_message w (Some (DEVICE_REGISTER i)) now s))
        = [(i, \<lparr>ws = w, lastSeen = now, deviceId = i, device = dev\<rparr>)]
      \<and> readyState (on_message w (Some (DEVICE_REGISTER i)) now s) = readyState s)
   \<and> (distinct (map fst (srv_deviceConnections t)) \<longrightarrow>
      filter (\<lambda>e. fst e = j) (srv_deviceConnections (srv_on_message v (Some (DEVICE_REGISTER j)) t))
        = [(j, v)]
      \<and> srv_readyState (srv_on_message v (Some (DEVICE_REGISTER j)) t) = srv_readyState t)"
  by (simp add: deviceConnections_register filter_key_update broadcastToAdmin_keeps
        readyState_on_message[of w "Some (DEVICE_REGISTER i)", simplified])

theorem reregistration_replaces_and_closes_nothing_witness:
  "filter (\<lambda>e. fst e = ''d1'')
       (deviceConnections (on_message 3 (Some (DEVICE_REGISTER ''d1'')) 20 observed))
     = [(''d1'', \<lparr>ws = 3, lastSeen = 20, deviceId = ''d1'',
                  device = lobby\<lparr>status := ''online'', last_seen := 10\<rparr>\<rparr>)]
   \<and> readyState (on_message 3 (Some (DEVICE_REGISTER ''d1'')) 20 observed) 2 = OPEN
   \<and> filter (\<lambda>e. fst e = ''d1'')
       (srv_deviceConnections (srv_on_message 3 (Some (DEVICE_REGISTER ''d1'')) srv_superseded))
     = [(''d1'', 3)]
   \<and> srv_readyState (srv_on_message 3 (Some (DEVICE_REGISTER ''d1'')) srv_superseded) 2 = OPEN"
  using reregistration_replaces_and_closes_nothing
    [where s = observed and i = "''d1''" and w = 3 and now = 20
       and dev = "lobby\<lparr>status := ''online'', last_seen := 10\<rparr>"
       and t = srv_superseded and j = "''d1''" and v = 3]
  by (simp add: observed_eval observed_db srv_superseded_eval)

text \<open>
  The claim as stated fails: \<open>d1\<close> registered on socket 2 and then on socket 3; the
  registry holds socket 3 and socket 2 is still OPEN. In server.js, with the sockets 1
  and 2, socket 1 is still OPEN.
\<close>

theorem superseded_socket_left_open:
  "map_option ws (map_of (deviceConnections observed) ''d1'') = Some 2
   \<and> map_option ws (map_of (deviceConnections superseded) ''d1'') = Some 3
   \<and> readyState superseded 2 = OPEN
   \<and> srv_deviceConnections srv_superseded = [(''d1'', 2)]
   \<and> srv_readyState srv_superseded 1 = OPEN"
  by (simp add: observed_eval superseded_eval srv_superseded_eval)

section \<open>What updates lastSeen\<close>

text \<open>
  C7, as amended. A HEARTBEAT frame for a registered device id sets the \<open>lastSeen\<close> of
  its entry to the time of the frame (and a successful DEVICE_REGISTER makes an entry
  with that time, see C6). The frames PLAYBACK_LOG, DEVICE_STATUS and SCREENSHOT_RESULT
  leave the registry, and so every \<open>lastSeen\<close>, as they are.
\<close>

theorem lastSeen_updated_by_heartbeat_only:
  "(map_of (deviceConnections s) i = Some c \<longrightarrow>
      map_of (deviceConnections (on_message w (Some (HEARTBEAT i)) now s)) i
        = Some (c\<lparr>lastSeen := now\<rparr>))
   \<and> deviceConnections (on_message w (Some (PLAYBACK_LOG i a b d t1 t2)) now s)
       = deviceConnections s
   \<and> deviceConnections (on_message w (Some (DEVICE_STATUS i st sto)) now s)
       = deviceConnections s
   \<and> deviceConnections (on_message w (Some (SCREENSHOT_RESULT i shot ts)) now s)
       = deviceConnections s"
  by (simp add: deviceConnections_heartbeat deviceConnections_telemetry AList.update_conv')

theorem lastSeen_updated_by_heartbeat_only_witness:
  "map_of (deviceConnections (on_message 2 (Some (HEARTBEAT ''d1'')) 99 observed)) ''d1''
     = Some \<lparr>ws = 2, lastSeen = 99, deviceId = ''d1'', device = lobby\<rparr>"
  using lastSeen_updated_by_heartbeat_only
    [where s = observed and i = "''d1''" and w = 2 and now = 99
       and c = "\<lparr>ws = 2, lastSeen = 10, deviceId = ''d1'', device = lobby\<rparr>"]
  by (simp add: observed_eval)

text \<open>
  The claim as stated fails: the device \<open>d1\<close>, registered at the time 10, sends a
  PLAYBACK_LOG that is handled at the time 99, and its \<open>lastSeen\<close> is still 10.
\<close>

theorem playback_leaves_lastSeen:
  "map_of (deviceConnections observed) ''d1''
     = Some \<lparr>ws = 2, lastSeen = 10, deviceId = ''d1'', device = lobby\<rparr>
   \<and> map_of (deviceConnections
        (on_message 2 (Some (PLAYBACK_LOG ''d1'' ''c1'' ''g1'' 30 0 30)) 99 observed)) ''d1''
     = Some \<lparr>ws = 2, lastSeen = 10, deviceId = ''d1'', device = lobby\<rparr>"
  by (simp add: deviceConnections_telemetry observed_eval)

section \<open>A write that fails during a broadcast\<close>



section \<open>DEVICE_ONLINE and the telemetry that follows\<close>

text \<open>
  C9, as amended. The DEVICE_ONLINE of a registration is broadcast when the store answers
  the last request of the registration, the insert of the log entry, whatever was
  handled before that: it then stands, after REGISTERED, before every broadcast and
  every frame that the events after that answer make, so before the telemetry of every
  frame whose last request the store answers later, as for every frame that arrives
  once the registration has finished. The listener does not make a connection wait for
  its registration: see the run after the theorem.
\<close>

theorem online_before_all_that_follows:
  "k < length ts \<and> ts ! k = Some (Reg_insert w i dev) \<longrightarrow>
     broadcasts (fst (async_run (Answers k now # es) (s, ts)))
       = broadcasts s @ (DEVICE_ONLINE i (name dev), tenant_id dev)
           # emitted es (async_step (Answers k now) (s, ts))
     \<and> sent (fst (async_run (Answers k now # es) (s, ts)))
       = sent s @ (w, REGISTERED_device i)
           # map (\<lambda>c. (ws c, DEVICE_ONLINE i (name dev)))
               (filter (\<lambda>c. readyState s (ws c) = OPEN) (map snd (adminConnections s)))
           @ wrote es (async_step (Answers k now) (s, ts))"
proof
  assume "k < length ts \<and> ts ! k = Some (Reg_insert w i dev)"
  then have step:
    "broadcasts (fst (async_step (Answers k now) (s, ts)))
       = broadcasts s @ [(DEVICE_ONLINE i (name dev), tenant_id dev)]"
    "sent (fst (async_step (Answers k now) (s, ts)))
       = sent s @ (w, REGISTERED_device i)
           # map (\<lambda>c. (ws c, DEVICE_ONLINE i (name dev)))
               (filter (\<lambda>c. readyState s (ws c) = OPEN) (map snd (adminConnections s)))"
    by (simp_all add: keeps broadcasts_broadcastToAdmins sent_broadcastToAdmins)
  show "broadcasts (fst (async_run (Answers k now # es) (s, ts)))
       = broadcasts s @ (DEVICE_ONLINE i (name dev), tenant_id dev)
           # emitted es (async_step (Answers k now) (s, ts))
     \<and> sent (fst (async_run (Answers k now # es) (s, ts)))
       = sent s @ (w, REGISTERED_device i)
           # map (\<lambda>c. (ws c, DEVICE_ONLINE i (name dev)))
               (filter (\<lambda>c. readyState s (ws c) = OPEN) (map snd (adminConnections s)))
           @ wrote es (async_step (Answers k now) (s, ts))"
    using broadcasts_async_run[of es "async_step (Answers k now) (s, ts)"]
      sent_async_run[of es "async_step (Answers k now) (s, ts)"] step
    by (simp del: async_step.simps)
qed

text \<open>The PLAYBACK_LOG of \<open>d1\<close> arrives after its registration has finished: the observer
  is written DEVICE_ONLINE and then PLAYBACK_UPDATE.\<close>

theorem online_before_all_that_follows_witness:
  "snd registering ! 1 = Some (Reg_insert 2 ''d1'' lobby)
   \<and> broadcasts (fst (async_run (Answers 1 13 # patient_device) registering))
     = [(DEVICE_ONLINE ''d1'' ''Lobby'', ''A''), (PLAYBACK_UPDATE ''d1'' ''c1'' ''g1'' 30, ''A'')]"
  using online_before_all_that_follows
    [where s = "fst registering" and ts = "snd registering" and k = 1 and w = 2
       and i = "''d1''" and dev = lobby and now = 13 and es = patient_device]
  by (simp add: registering_def patient_device_def boot_def store1_def lobby_def
        handleAdminRegister_def ws_send_def update_device_def insert_device_log_def
        insert_playback_log_def broadcastToAdmins_def written_def)

text \<open>
  The claim as stated fails: the device \<open>d1\<close> sends DEVICE_REGISTER and then a
  PLAYBACK_LOG on the same socket; the store answers each request in the order the
  requests were made; the PLAYBACK_UPDATE is broadcast before the DEVICE_ONLINE.
\<close>

theorem telemetry_overtakes_registration:
  "broadcasts (fst (async_run eager_device (boot store1, [])))
     = [(PLAYBACK_UPDATE ''d1'' ''c1'' ''g1'' 30, ''A''), (DEVICE_ONLINE ''d1'' ''Lobby'', ''A'')]"
  by (simp add: eager_device_def boot_def store1_def lobby_def
        handleAdminRegister_def keeps broadcasts_broadcastToAdmins devices_update_device
        ws_send_def insert_playback_log_def)

section \<open>Heartbeat of an unregistered device\<close>

text \<open>
  C10. A HEARTBEAT frame whose deviceId has no entry in \<open>deviceConnections\<close> changes
  nothing: the registry, the store and the history of the frames written (so no
  HEARTBEAT_ACK) are what they were, whatever socket the frame came on; and the handler
  ends without waiting for the store.
\<close>

theorem heartbeat_unregistered_noop:
  assumes "i \<notin> fst ` set (deviceConnections s)"
  shows "on_message w (Some (HEARTBEAT i)) now s = s
       \<and> arrive w (Some (HEARTBEAT i)) now s = (s, None)"
proof -
  from assms have "map_of (deviceConnections s) i = None"
    by (simp add: map_of_eq_None_iff)
  then show ?thesis
    by (simp add: handleHeartbeat_def)
qed

theorem heartbeat_unregistered_noop_witness:
  "''d9'' \<notin> fst ` set (deviceConnections observed)
   \<and> on_message 7 (Some (HEARTBEAT ''d9'')) 99 observed = observed
   \<and> arrive 7 (Some (HEARTBEAT ''d9'')) 99 observed = (observed, None)"
  using heartbeat_unregistered_noop [of "''d9''" observed 7 99]
  by (simp add: observed_eval)

end
